theory Spec2Isabelle
  imports Main "HOL-Library.Word" "HOL-Library.Signed_Division" "HOL-Library.Monad_Syntax"
begin

unbundle bit_operations_syntax

section \<open>Go values\<close>

text \<open>
  Go's \<open>int\<close> is a 64-bit two's complement integer (as on every 64-bit platform):
  \<open>+\<close>, \<open>-\<close> and \<open>*\<close> wrap, comparisons are signed (\<open>\<le>s\<close>, \<open><s\<close>) and \<open>/\<close>
  truncates towards zero. A byte slice and a string are both lists of 8-bit characters.
  A runtime panic (here only an index out of range) is the value \<open>None\<close>.
\<close>

type_synonym go_int = "64 word"

definition quo :: "go_int \<Rightarrow> go_int \<Rightarrow> go_int" where
  \<comment> \<open>Go's \<open>a / b\<close> on \<open>int\<close>, for a divisor that is not zero.\<close>
  "quo a b = word_of_int (sint a sdiv sint b)"

definition byte :: "go_int \<Rightarrow> char" where
  \<comment> \<open>The conversion \<open>byte(x)\<close>: the low eight bits.\<close>
  "byte x = char_of (unat x)"

abbreviation nl :: char where "nl \<equiv> CHR 0x0A"
abbreviation tab :: char where "tab \<equiv> CHR 0x09"

section \<open>Flags and the Logger\<close>

definition Ldate :: go_int where "Ldate = push_bit 0 1"
definition Ltime :: go_int where "Ltime = push_bit 1 1"
definition Lmicroseconds :: go_int where "Lmicroseconds = push_bit 2 1"
definition Llongfile :: go_int where "Llongfile = push_bit 3 1"
definition Lshortfile :: go_int where "Lshortfile = push_bit 4 1"
definition LUTC :: go_int where "LUTC = push_bit 5 1"
definition Lmsgprefix :: go_int where "Lmsgprefix = push_bit 6 1"
definition LstdFlags :: go_int where "LstdFlags = Ldate OR Ltime"

text \<open>
  An \<open>io.Writer\<close> held by a Logger is either \<open>io.Discard\<close> or some other writer; the
  comparison \<open>out == io.Discard\<close> tells the two apart. Another writer is named by a
  number (\<open>os.Stderr\<close> is file descriptor 2). The interface value is taken to be a
  writer: a nil interface, on which \<open>Write\<close> cannot be called, is left out.
\<close>

datatype writer = Discard | Sink nat

definition Stderr :: writer where "Stderr = Sink 2"

text \<open>
  The Logger struct. The mutex \<open>mu\<close> has no field here: the model runs one call at a
  time. \<open>isDiscard\<close> is the \<open>int32\<close> the code reads and writes atomically.
\<close>

record Logger =
  prefix :: string
  flag :: go_int
  out :: writer
  buf :: string
  isDiscard :: "32 word"

definition New :: "writer \<Rightarrow> string \<Rightarrow> go_int \<Rightarrow> Logger" where
  "New out' prefix' flag' =
     (let l = \<lparr>prefix = prefix', flag = flag', out = out', buf = [], isDiscard = 0\<rparr>
      in if out' = Discard then l\<lparr>isDiscard := 1\<rparr> else l)"

definition SetOutput :: "Logger \<Rightarrow> writer \<Rightarrow> Logger" where
  "SetOutput l w =
     (let l = l\<lparr>out := w\<rparr>;
          isDiscard' = (if w = Discard then 1 else 0)
      in l\<lparr>isDiscard := isDiscard'\<rparr>)"

definition std0 :: Logger where
  \<comment> \<open>The package variable \<open>std\<close> as the program starts.\<close>
  "std0 = New Stderr [] LstdFlags"

definition discard_inv :: "Logger \<Rightarrow> bool" where
  \<comment> \<open>The comment on the field: \<open>isDiscard\<close> tells whether \<open>out == io.Discard\<close>.\<close>
  "discard_inv l = ((isDiscard l \<noteq> 0) = (out l = Discard))"

section \<open>itoa\<close>

text \<open>
  The loop of \<open>itoa\<close> over the array \<open>b\<close> of 20 bytes and the index \<open>bp\<close>. The index
  only moves down from 19, so it is a plain integer; a write at an index below 0 panics.
\<close>

function itoa_loop :: "string \<Rightarrow> int \<Rightarrow> go_int \<Rightarrow> go_int \<Rightarrow> (string \<times> int \<times> go_int) option" where
  "itoa_loop b bp i wid =
     (if 10 \<le>s i \<or> 1 <s wid then
        (let wid = wid - 1;
             q = quo i 10
         in if bp < 0 then None
            else itoa_loop (b[nat bp := byte (48 + i - q * 10)]) (bp - 1) q wid)
      else Some (b, bp, i))"
  by pat_completeness auto
termination
  by (relation "measure (\<lambda>(b, bp, i, wid). nat (bp + 1))") auto

definition itoa :: "string \<Rightarrow> go_int \<Rightarrow> go_int \<Rightarrow> string option" where
  \<comment> \<open>\<open>buf'\<close> is the slice \<open>*buf\<close>; the result is the slice after the append.\<close>
  "itoa buf' i wid =
     (case itoa_loop (replicate 20 (CHR 0x00)) 19 i wid of
        None \<Rightarrow> None
      | Some (b, bp, i) \<Rightarrow>
          if bp < 0 then None
          else Some (buf' @ drop (nat bp) (b[nat bp := byte (48 + i)])))"

definition itoa_text :: "go_int \<Rightarrow> go_int \<Rightarrow> string" where
  \<comment> \<open>The bytes that \<open>itoa\<close> appends (none where it panics).\<close>
  "itoa_text i wid = (case itoa [] i wid of Some d \<Rightarrow> d | None \<Rightarrow> [])"

section \<open>The time, as formatHeader reads it\<close>

text \<open>
  \<open>time.Time\<close> belongs to Go's library. formatHeader reads it through \<open>Date\<close>, \<open>Clock\<close>
  and \<open>Nanosecond\<close>, in the location the value carries or, after \<open>UTC()\<close>, in UTC. The
  model of a Time is the pair of the two readings.
\<close>

record civil =
  c_year :: go_int
  c_month :: go_int
  c_day :: go_int
  c_hour :: go_int
  c_minute :: go_int
  c_second :: go_int
  c_nanosecond :: go_int

record Time =
  wall :: civil
  zulu :: civil

definition UTC :: "Time \<Rightarrow> Time" where
  "UTC t = t\<lparr>wall := zulu t\<rparr>"

definition Date :: "Time \<Rightarrow> go_int \<times> go_int \<times> go_int" where
  "Date t = (c_year (wall t), c_month (wall t), c_day (wall t))"

definition Clock :: "Time \<Rightarrow> go_int \<times> go_int \<times> go_int" where
  "Clock t = (c_hour (wall t), c_minute (wall t), c_second (wall t))"

definition Nanosecond :: "Time \<Rightarrow> go_int" where
  "Nanosecond t = c_nanosecond (wall t)"

section \<open>formatHeader\<close>

text \<open>
  The loop that finds the short file name: \<open>i\<close> runs down from \<open>len(file) - 1\<close> while
  \<open>i > 0\<close>; at the first \<open>'/'\<close> the result is \<open>file[i+1:]\<close>, and \<open>file\<close> when the loop ends
  without one.
\<close>

function short_loop :: "string \<Rightarrow> int \<Rightarrow> string" where
  "short_loop file i =
     (if i > 0 then
        (if file ! nat i = CHR ''/'' then drop (nat (i + 1)) file
         else short_loop file (i - 1))
      else file)"
  by pat_completeness auto
termination
  by (relation "measure (\<lambda>(file, i). nat i)") auto

definition formatHeader :: "Logger \<Rightarrow> string \<Rightarrow> Time \<Rightarrow> string \<Rightarrow> go_int \<Rightarrow> string option" where
  "formatHeader l buf' t file line = do {
     let buf' = (if flag l AND Lmsgprefix = 0 then buf' @ prefix l else buf');
     buf' \<leftarrow> (if flag l AND (Ldate OR Ltime OR Lmicroseconds) \<noteq> 0 then do {
         let t = (if flag l AND LUTC \<noteq> 0 then UTC t else t);
         buf' \<leftarrow> (if flag l AND Ldate \<noteq> 0 then do {
             let (year, month, day) = Date t;
             buf' \<leftarrow> itoa buf' year 4;
             let buf' = buf' @ ''/'';
             buf' \<leftarrow> itoa buf' month 2;
             let buf' = buf' @ ''/'';
             buf' \<leftarrow> itoa buf' day 2;
             Some (buf' @ '' '')
           } else Some buf');
         (if flag l AND (Ltime OR Lmicroseconds) \<noteq> 0 then do {
             let (hour, min', sec) = Clock t;
             buf' \<leftarrow> itoa buf' hour 2;
             let buf' = buf' @ '':'';
             buf' \<leftarrow> itoa buf' min' 2;
             let buf' = buf' @ '':'';
             buf' \<leftarrow> itoa buf' sec 2;
             buf' \<leftarrow> (if flag l AND Lmicroseconds \<noteq> 0 then do {
                 let buf' = buf' @ ''.'';
                 itoa buf' (quo (Nanosecond t) 1000) 6
               } else Some buf');
             Some (buf' @ '' '')
           } else Some buf')
       } else Some buf');
     buf' \<leftarrow> (if flag l AND (Lshortfile OR Llongfile) \<noteq> 0 then do {
         let file = (if flag l AND Lshortfile \<noteq> 0
                     then short_loop file (int (length file) - 1) else file);
         let buf' = buf' @ file;
         let buf' = buf' @ '':'';
         buf' \<leftarrow> itoa buf' line (- 1);
         Some (buf' @ '': '')
       } else Some buf');
     Some (if flag l AND Lmsgprefix \<noteq> 0 then buf' @ prefix l else buf')
   }"

text \<open>
  What formatHeader appends, in closed form: the date and time, and the file and line.
  The lemma \<open>formatHeader_eq\<close> below ties them to the function.
\<close>

definition datetime_text :: "Logger \<Rightarrow> Time \<Rightarrow> string" where
  "datetime_text l t =
     (if flag l AND (Ldate OR Ltime OR Lmicroseconds) \<noteq> 0 then
        (let c = wall (if flag l AND LUTC \<noteq> 0 then UTC t else t)
         in (if flag l AND Ldate \<noteq> 0
             then itoa_text (c_year c) 4 @ ''/'' @ itoa_text (c_month c) 2 @ ''/'' @
                  itoa_text (c_day c) 2 @ '' ''
             else []) @
            (if flag l AND (Ltime OR Lmicroseconds) \<noteq> 0
             then itoa_text (c_hour c) 2 @ '':'' @ itoa_text (c_minute c) 2 @ '':'' @
                  itoa_text (c_second c) 2 @
                  (if flag l AND Lmicroseconds \<noteq> 0
                   then ''.'' @ itoa_text (quo (c_nanosecond c) 1000) 6 else []) @
                  '' ''
             else []))
      else [])"

definition file_text :: "Logger \<Rightarrow> string \<Rightarrow> go_int \<Rightarrow> string" where
  "file_text l file line =
     (if flag l AND (Lshortfile OR Llongfile) \<noteq> 0 then
        (if flag l AND Lshortfile \<noteq> 0
         then short_loop file (int (length file) - 1) else file) @
        '':'' @ itoa_text line (- 1) @ '': ''
      else [])"

section \<open>The surroundings of a call\<close>

text \<open>
  An \<open>error\<close> is nil (\<open>None\<close>) or a value, known here by the text its \<open>Error\<close> method
  returns. A call leaves a trace of what it asked of its surroundings: each
  \<open>runtime.Caller(skip)\<close> and each \<open>Write\<close> on a writer, in order.
\<close>

type_synonym go_error = string

datatype event = CallerEv go_int | WriteEv writer string

record frame =
  fr_pc :: nat
  fr_file :: string
  fr_line :: go_int

text \<open>
  What a call depends on and the code does not fix.
  The colour constants \<open>Reset\<close>, \<open>Red\<close>, \<open>Green\<close>, \<open>Yellow\<close>, \<open>Blue\<close> and \<open>White\<close> are
  declared in a file that is not among the sources: they are parameters.
  \<open>respond\<close> is the error a writer other than \<open>io.Discard\<close> returns from \<open>Write\<close>, given
  the trace so far, the writer and the bytes; a \<open>Write\<close> is taken to return.
  \<open>func_name pc\<close> is \<open>runtime.FuncForPC(pc).Name()\<close>. \<open>own_frame\<close> is the stack frame of
  a function of this package while it runs, and \<open>rt_frame\<close> what the runtime reports
  for a negative skip, which names frames of the runtime itself.
\<close>

record env =
  Reset :: string
  Red :: string
  Green :: string
  Yellow :: string
  Blue :: string
  White :: string
  respond :: "event list \<Rightarrow> nat \<Rightarrow> string \<Rightarrow> go_error option"
  func_name :: "nat \<Rightarrow> string"
  own_frame :: "string \<Rightarrow> frame"
  rt_frame :: "go_int \<Rightarrow> frame option"

text \<open>
  \<open>runtime.Caller(skip)\<close> on the stack \<open>stk\<close> of the calling goroutine, innermost frame
  first: \<open>stk ! 0\<close> is the function that calls \<open>runtime.Caller\<close>. A frame that does not
  exist gives the zero values and \<open>ok = false\<close>.
\<close>

definition Caller :: "env \<Rightarrow> frame list \<Rightarrow> go_int \<Rightarrow> nat \<times> string \<times> go_int \<times> bool" where
  "Caller env stk skip =
     (case (if skip <s 0 then rt_frame env skip
            else if nat (sint skip) < length stk then Some (stk ! nat (sint skip))
            else None) of
        None \<Rightarrow> (0, [], 0, False)
      | Some f \<Rightarrow> (fr_pc f, fr_file f, fr_line f, True))"

definition Write :: "env \<Rightarrow> writer \<Rightarrow> string \<Rightarrow> event list \<Rightarrow> go_error option \<times> event list" where
  \<comment> \<open>\<open>io.Discard\<close> accepts every write and never fails.\<close>
  "Write env w p tr =
     ((case w of Discard \<Rightarrow> None | Sink k \<Rightarrow> respond env tr k p), tr @ [WriteEv w p])"

text \<open>
  The state a call works on: the Logger (the receiver of a method, the package's \<open>std\<close>
  for a package-level function) and the trace.
\<close>

record world =
  lg :: Logger
  trace :: "event list"

section \<open>Output\<close>

text \<open>
  \<open>now\<close> is what \<open>time.Now()\<close> returns and \<open>callers\<close> the stack at the call of Output,
  the calling function first. The result is the returned error and the state after.
\<close>

definition Output ::
  "env \<Rightarrow> Time \<Rightarrow> frame list \<Rightarrow> string \<Rightarrow> string \<Rightarrow> go_error option \<Rightarrow> go_int \<Rightarrow> string \<Rightarrow>
   world \<Rightarrow> (go_error option \<times> world) option" where
  "Output env now callers functionName color err calldepth s w =
     (let l = lg w;
          stk = own_frame env ''Output'' # callers;
          (file, line, tr) =
            (if flag l AND (Lshortfile OR Llongfile) \<noteq> 0 then
               (let (pc, file, line, ok) = Caller env stk calldepth;
                    (file, line) = (if \<not> ok then (''???'', 0) else (file, line))
                in (file, line, trace w @ [CallerEv calldepth]))
             else ([], 0, trace w));
          l = l\<lparr>buf := take 0 (buf l)\<rparr>
      in case formatHeader l (buf l) now file line of
           None \<Rightarrow> None
         | Some h \<Rightarrow>
             (let l = l\<lparr>buf := h\<rparr>;
                  l = l\<lparr>buf := buf l @ s\<rparr>;
                  l = (if length s = 0 \<or> s ! (length s - 1) \<noteq> nl
                       then l\<lparr>buf := buf l @ [nl]\<rparr> else l);
                  l = (if functionName = ''github.com/perfectogo/log.Error'' then
                         (if err \<noteq> None
                          then l\<lparr>buf := color @ ''TIME: '' @ buf l @ Reset env\<rparr>
                          else l\<lparr>buf := color @ ''TIME: '' @ buf l @ Reset env\<rparr>)
                       else l\<lparr>buf := color @ ''TIME: '' @ buf l @ Reset env\<rparr>);
                  (err, tr) = Write env (out l) (buf l) tr
              in Some (err, \<lparr>lg = l, trace = tr\<rparr>)))"

text \<open>The number of newlines a text ends with.\<close>

definition trailing_nl :: "string \<Rightarrow> nat" where
  "trailing_nl xs = length (takeWhile (\<lambda>c. c = nl) (rev xs))"

section \<open>The level functions\<close>

text \<open>
  Decimal digits, as \<open>strconv.Itoa\<close> writes them and as the claims about the header
  state them: \<open>dec n\<close> is \<open>n\<close> in decimal without padding, \<open>zpad w s\<close> fills \<open>s\<close> with
  zeros on the left up to the width \<open>w\<close>.
\<close>

definition digit :: "nat \<Rightarrow> char" where
  "digit n = char_of (48 + n)"

function dec :: "nat \<Rightarrow> string" where
  "dec n = (if n < 10 then [digit n] else dec (n div 10) @ [digit (n mod 10)])"
  by pat_completeness auto
termination
  by (relation "measure (\<lambda>n. n)") auto

definition zpad :: "nat \<Rightarrow> string \<Rightarrow> string" where
  "zpad w s = replicate (w - length s) (CHR ''0'') @ s"

definition Itoa :: "go_int \<Rightarrow> string" where
  \<comment> \<open>\<open>strconv.Itoa\<close>, of Go's library.\<close>
  "Itoa i = (if i <s 0 then ''-'' @ dec (nat (- sint i)) else dec (nat (sint i)))"

text \<open>
  \<open>fmt.Sprint\<close>, of Go's library: the operands in their default formats, with a space
  between two operands when neither is a string. An operand is a string or another
  value, known by its default format.
\<close>

datatype any = is_Str: Str string | Val string

fun text_of :: "any \<Rightarrow> string" where
  "text_of (Str x) = x"
| "text_of (Val x) = x"

fun Sprint_from :: "any \<Rightarrow> any list \<Rightarrow> string" where
  "Sprint_from p [] = []"
| "Sprint_from p (a # as) =
     (if \<not> is_Str a \<and> \<not> is_Str p then '' '' else []) @ text_of a @ Sprint_from a as"

definition Sprint :: "any list \<Rightarrow> string" where
  "Sprint v = (case v of [] \<Rightarrow> [] | a # as \<Rightarrow> text_of a @ Sprint_from a as)"

text \<open>
  A level function works on the package's Logger \<open>std\<close>, the \<open>lg\<close> of the world, and
  returns nothing: the result is the state after. \<open>callers\<close> is the stack at the call,
  the function that calls the level function first. In Error, \<open>err != nil\<close> is the case
  \<open>Some cause\<close>, and \<open>err.Error()\<close> is \<open>cause\<close>.
\<close>

definition getCurrentFuncName :: "env \<Rightarrow> frame list \<Rightarrow> world \<Rightarrow> string \<times> world" where
  "getCurrentFuncName env callers w =
     (let stk = own_frame env ''getCurrentFuncName'' # callers;
          (pc, file, line, ok) = Caller env stk 1
      in (func_name env pc, w\<lparr>trace := trace w @ [CallerEv 1]\<rparr>))"

definition Println :: "env \<Rightarrow> Time \<Rightarrow> frame list \<Rightarrow> any list \<Rightarrow> world \<Rightarrow> world option" where
  "Println env now callers v w =
     (let stk = own_frame env ''Println'' # callers;
          (pc, filename, line, ok) = Caller env stk 1;
          w = w\<lparr>trace := trace w @ [CallerEv 1]\<rparr>;
          fn = (\<lambda>(arg :: nat) w.
                  let (pc, file, line, ok) = Caller env (own_frame env ''Println.func1'' # stk) 1
                  in (func_name env pc, w\<lparr>trace := trace w @ [CallerEv 1]\<rparr>));
          (fnName, w) = getCurrentFuncName env stk w;
          color = Green env
      in if isDiscard (lg w) \<noteq> 0 then Some w
         else
           (let color = White env;
                (fn_pc, w) = fn pc w
            in case Output env now stk fnName color None 2
                      ([nl] @ ''PATH:'' @ [tab] @ filename @ [nl] @ ''FUNCTION: '' @ fn_pc @
                       [nl] @ ''LOG LINE: '' @ Itoa line @ color @ [nl] @ ''INFO: '' @
                       Sprint v @ Reset env) w of
                 None \<Rightarrow> None
               | Some (e, w) \<Rightarrow> Some w))"

definition Info :: "env \<Rightarrow> Time \<Rightarrow> frame list \<Rightarrow> any list \<Rightarrow> world \<Rightarrow> world option" where
  "Info env now callers v w =
     (let stk = own_frame env ''Info'' # callers;
          (fnName, w) = getCurrentFuncName env stk w;
          color = Blue env;
          (pc, filename, line, ok) = Caller env stk 1;
          w = w\<lparr>trace := trace w @ [CallerEv 1]\<rparr>
      in if isDiscard (lg w) \<noteq> 0 then Some w
         else
           (case Output env now stk fnName color None 2
                   ([nl, tab] @ ''PATH: '' @ filename @ [nl, tab] @ ''LOG LINE: '' @ Itoa line @
                    [nl, tab] @ ''INFO: '' @ color @ Sprint v @ Reset env) w of
              None \<Rightarrow> None
            | Some (e, w) \<Rightarrow> Some w))"

definition Error :: "env \<Rightarrow> Time \<Rightarrow> frame list \<Rightarrow> string \<Rightarrow> go_error option \<Rightarrow> world \<Rightarrow> world option" where
  "Error env now callers msg err w =
     (let stk = own_frame env ''Error'' # callers;
          (pc, filename, line, ok) = Caller env stk 1;
          w = w\<lparr>trace := trace w @ [CallerEv 1]\<rparr>;
          (fnName, w) = getCurrentFuncName env stk w;
          color = Green env
      in if isDiscard (lg w) \<noteq> 0 then Some w
         else
           (case err of
              Some cause \<Rightarrow>
                (let color = Red env
                 in case Output env now stk fnName color err 2
                           ([nl, tab] @ ''PATH: '' @ filename @ [nl, tab] @ ''LOG LINE: '' @
                            Itoa line @ color @ [nl, tab] @ ''MESSAGE: '' @ Sprint [Str msg] @
                            [nl, tab] @ ''ERROR: '' @ cause @ Reset env) w of
                      None \<Rightarrow> None
                    | Some (e, w) \<Rightarrow> Some w)
            | None \<Rightarrow>
                (case Output env now stk fnName color err 2
                        ([nl, tab] @ ''PATH: '' @ filename @ [nl, tab] @ ''LOG LINE: '' @
                         Itoa line @ color @ [nl, tab] @ ''MESSAGE: '' @ Sprint [Str msg] @
                         [nl, tab] @ ''ERROR: NO ERROR'' @ Reset env) w of
                   None \<Rightarrow> None
                 | Some (e, w) \<Rightarrow> Some w)))"

definition Warning :: "env \<Rightarrow> Time \<Rightarrow> frame list \<Rightarrow> any list \<Rightarrow> world \<Rightarrow> world option" where
  "Warning env now callers v w =
     (let stk = own_frame env ''Warning'' # callers;
          (pc, filename, line, ok) = Caller env stk 1;
          w = w\<lparr>trace := trace w @ [CallerEv 1]\<rparr>;
          (fnName, w) = getCurrentFuncName env stk w;
          color = Yellow env
      in if isDiscard (lg w) \<noteq> 0 then Some w
         else
           (case Output env now stk fnName color None 2
                   ([nl] @ ''WARNING LOG'' @ [nl, tab] @ ''PATH: '' @ filename @ [nl, tab] @
                    ''LOG LINE: '' @ Itoa line @ [nl, tab] @ ''WARNING: '' @ color @
                    Sprint v @ Reset env) w of
              None \<Rightarrow> None
            | Some (e, w) \<Rightarrow> Some w))"

section \<open>The layout of the header, as the claims state it\<close>

text \<open>
  \<open>pad w n\<close> is the number \<open>n\<close> in decimal, filled with zeros on the left up to \<open>w\<close>
  digits. \<open>civil_ok\<close> holds of a calendar date and a clock time whose fields are in
  their ranges, the year having at most four digits.
\<close>

definition pad :: "nat \<Rightarrow> nat \<Rightarrow> string" where
  "pad w n = zpad w (dec n)"

definition civil_ok :: "civil \<Rightarrow> bool" where
  "civil_ok c =
     (0 \<le>s c_year c \<and> c_year c \<le>s 9999 \<and> 1 \<le>s c_month c \<and> c_month c \<le>s 12 \<and>
      1 \<le>s c_day c \<and> c_day c \<le>s 31 \<and> 0 \<le>s c_hour c \<and> c_hour c \<le>s 23 \<and>
      0 \<le>s c_minute c \<and> c_minute c \<le>s 59 \<and> 0 \<le>s c_second c \<and> c_second c \<le>s 59 \<and>
      0 \<le>s c_nanosecond c \<and> c_nanosecond c \<le>s 999999999)"

section \<open>Sample inputs\<close>

text \<open>
  Concrete surroundings on which the definitions are evaluated.
  Modelled from the spec: the colour palette, whose file is not among the sources. The
  spec (4.1) gives Green as ESC[32m and asks for a Reset sequence; the other colours
  are given the usual ANSI codes. The sample writers accept every write, no function
  has a name, and every frame of the package is at line 1 of \<open>log.go\<close>.
\<close>

abbreviation esc :: char where "esc \<equiv> CHR 0x1B"

definition env0 :: env where
  "env0 = \<lparr>Reset = esc # ''[0m'', Red = esc # ''[31m'', Green = esc # ''[32m'',
            Yellow = esc # ''[33m'', Blue = esc # ''[34m'', White = esc # ''[37m'',
            respond = (\<lambda>tr k p. None), func_name = (\<lambda>pc. []),
            own_frame = (\<lambda>name. \<lparr>fr_pc = 1, fr_file = ''log.go'', fr_line = 1\<rparr>),
            rt_frame = (\<lambda>skip. None)\<rparr>"

definition t2024 :: Time where
  \<comment> \<open>2024-01-05T00:00:00Z, a time in UTC.\<close>
  "t2024 = (let c = \<lparr>c_year = 2024, c_month = 1, c_day = 5, c_hour = 0, c_minute = 0,
                      c_second = 0, c_nanosecond = 0\<rparr>
            in \<lparr>wall = c, zulu = c\<rparr>)"

definition main_stack :: "frame list" where
  \<comment> \<open>A caller: \<open>main.main\<close> at line 13 of \<open>/app/main.go\<close>.\<close>
  "main_stack = [\<lparr>fr_pc = 7, fr_file = ''/app/main.go'', fr_line = 13\<rparr>]"

definition w_short :: world where
  \<comment> \<open>A Logger to standard error with the short-file flag alone, and an empty trace.\<close>
  "w_short = \<lparr>lg = New Stderr [] Lshortfile, trace = []\<rparr>"

definition w_std :: world where
  \<comment> \<open>The package's Logger as the program starts, and an empty trace.\<close>
  "w_std = \<lparr>lg = std0, trace = []\<rparr>"

definition w_discard :: world where
  \<comment> \<open>The package's Logger after \<open>SetOutput(io.Discard)\<close>, and an empty trace.\<close>
  "w_discard = \<lparr>lg = SetOutput std0 Discard, trace = []\<rparr>"

section \<open>Machine integers\<close>

text \<open>
  Signed readings of 64-bit words: bounds, truncating division by 10 and by 1000,
  decrement, and the agreement of the signed and the unsigned reading of a value that is
  not negative.
\<close>

lemmas flag_defs = Ldate_def Ltime_def Lmicroseconds_def Llongfile_def Lshortfile_def LUTC_def
  Lmsgprefix_def LstdFlags_def

lemma sint_range64: "- (2 ^ 63) \<le> sint (i :: go_int) \<and> sint i < 2 ^ 63"
  using sint_ge [of i] sint_lt [of i] by simp

lemma sdiv10_nonneg: "0 \<le> k \<Longrightarrow> (k :: int) sdiv 10 = k div 10"
  by (simp add: signed_divide_int_def sgn_if)

lemma sdiv10_neg: "k < 0 \<Longrightarrow> (k :: int) sdiv 10 = - ((- k) div 10)"
  by (simp add: signed_divide_int_def sgn_if)

lemma sint_quo10: "sint (quo i 10) = sint i sdiv 10"
proof -
  let ?k = "sint i"
  have r: "- (2 ^ 63) \<le> ?k \<and> ?k < 2 ^ 63" by (rule sint_range64)
  have "- (2 ^ 63) \<le> ?k sdiv 10 \<and> ?k sdiv 10 < 2 ^ 63"
  proof (cases "0 \<le> ?k")
    case True
    then show ?thesis using r by (simp add: sdiv10_nonneg) linarith
  next
    case False
    then show ?thesis using r by (simp add: sdiv10_neg) linarith
  qed
  then show ?thesis
    by (simp add: quo_def sint_sbintrunc' signed_take_bit_int_eq_self)
qed

lemma sint_pred: "- (2 ^ 63) < sint (w :: go_int) \<Longrightarrow> sint (w - 1) = sint w - 1"
proof -
  assume a: "- (2 ^ 63) < sint w"
  have r: "sint w < 2 ^ 63" using sint_range64 [of w] by simp
  have "word_of_int (sint w - 1) = (word_of_int (sint w) :: go_int) - 1"
    by (simp only: wi_hom_syms) simp
  then have "w - 1 = word_of_int (sint w - 1)" by simp
  then have "sint (w - 1) = sint (word_of_int (sint w - 1) :: go_int)" by simp
  also have "\<dots> = signed_take_bit 63 (sint w - 1)"
    by (simp only: sint_sbintrunc') simp
  also have "\<dots> = sint w - 1"
    using a r by (intro signed_take_bit_int_eq_self) simp_all
  finally show ?thesis .
qed

lemma uint_sint_nonneg: "0 \<le> sint (x :: go_int) \<Longrightarrow> uint x = sint x"
proof -
  assume a: "0 \<le> sint x"
  have r: "sint x < 2 ^ 64" using sint_range64 [of x] by simp
  have "uint x = uint (word_of_int (sint x) :: go_int)" by simp
  also have "\<dots> = take_bit 64 (sint x)" by (simp only: uint_word_of_int_eq) simp
  also have "\<dots> = sint x" using a r by (simp add: take_bit_int_eq_self)
  finally show ?thesis .
qed

lemma nat_sint_unat: "0 \<le> sint (x :: go_int) \<Longrightarrow> nat (sint x) = unat x"
  by (simp add: uint_sint_nonneg unat_eq_nat_uint)

lemma sint_quo_1000:
  assumes "0 \<le> sint a"
  shows "sint (quo a 1000) = sint a div 1000"
proof -
  have r: "sint a < 2 ^ 63" using sint_range64 [of a] by simp
  have s: "sint a sdiv 1000 = sint a div 1000"
    using assms by (simp add: signed_divide_int_def sgn_if)
  have "0 \<le> sint a div 1000 \<and> sint a div 1000 < 2 ^ 63"
    using assms r by (simp add: pos_imp_zdiv_nonneg_iff)
  then show ?thesis
    by (simp add: quo_def s sint_sbintrunc' signed_take_bit_int_eq_self)
qed

lemma unat_quo_1000:
  assumes "0 \<le>s a"
  shows "unat (quo a 1000) = unat a div 1000" "0 \<le>s quo a 1000"
proof -
  have a: "0 \<le> sint a" using assms by (simp add: word_sle_eq)
  have q: "sint (quo a 1000) = sint a div 1000" using a by (rule sint_quo_1000)
  then have nn: "0 \<le> sint (quo a 1000)" using a by (simp add: pos_imp_zdiv_nonneg_iff)
  then show "0 \<le>s quo a 1000" by (simp add: word_sle_eq)
  have "unat (quo a 1000) = nat (sint (quo a 1000))" using nn by (simp add: nat_sint_unat)
  also have "\<dots> = nat (sint a) div 1000" using a by (simp add: q nat_div_distrib)
  also have "\<dots> = unat a div 1000" using a by (simp add: nat_sint_unat)
  finally show "unat (quo a 1000) = unat a div 1000" .
qed

lemma unat_le_of_sle:
  assumes "0 \<le>s (x :: go_int)" "x \<le>s b"
  shows "unat x \<le> unat b"
proof -
  have b: "0 \<le> sint b" using assms by (simp add: word_sle_eq)
  have "nat (sint x) \<le> nat (sint b)" using assms by (simp add: word_sle_eq)
  then show ?thesis using assms b by (simp add: word_sle_eq nat_sint_unat)
qed

lemma and_or_zero: "(x AND (a OR b) = 0) = (x AND a = 0 \<and> x AND b = 0)" for x :: go_int
  by (simp add: bit.conj_disj_distrib or_eq_0_iff)

section \<open>Decimal digits\<close>

text \<open>
  The recursive equations of the loops are unfolded by hand, not by the simplifier.
\<close>

declare itoa_loop.simps [simp del] short_loop.simps [simp del] dec.simps [simp del]

lemma digit_simps:
  "digit 0 = CHR ''0''" "digit 1 = CHR ''1''" "digit 2 = CHR ''2''" "digit 3 = CHR ''3''"
  "digit 4 = CHR ''4''" "digit 5 = CHR ''5''" "digit 6 = CHR ''6''" "digit 7 = CHR ''7''"
  "digit 8 = CHR ''8''" "digit 9 = CHR ''9''"
  by (simp_all add: digit_def char_of_def bit_iff_odd_drop_bit)

lemma digit_Suc0: "digit (Suc 0) = CHR ''1''"
  using digit_simps(2) by simp

lemma byte_small: "0 \<le> k \<Longrightarrow> k < 10 \<Longrightarrow> byte (word_of_int (48 + k)) = digit (nat k)"
proof -
  assume k: "0 \<le> k" "k < 10"
  have "uint (word_of_int (48 + k) :: go_int) = 48 + k"
    using k by (simp only: uint_word_of_int) (simp add: take_bit_int_eq_self)
  then have "unat (word_of_int (48 + k) :: go_int) = nat (48 + k)"
    by (simp only: unat_eq_nat_uint)
  then show ?thesis using k by (simp only: byte_def digit_def) (simp add: nat_add_distrib)
qed

lemma byte_digit:
  assumes "0 \<le> sint i"
  shows "byte (48 + i - quo i 10 * 10) = digit (nat (sint i) mod 10)"
proof -
  let ?k = "sint i"
  have i: "word_of_int ?k = i" by simp
  have q: "quo i 10 = word_of_int (?k div 10)"
    using assms by (simp add: quo_def sdiv10_nonneg)
  have "word_of_int (48 + (?k - (?k div 10) * 10)) = 48 + word_of_int ?k - (word_of_int (?k div 10) :: go_int) * 10"
    by (simp only: wi_hom_syms) simp
  then have e: "48 + i - quo i 10 * 10 = word_of_int (48 + (?k - (?k div 10) * 10))"
    by (simp only: q i)
  have m: "?k - (?k div 10) * 10 = ?k mod 10"
    by (simp add: minus_div_mult_eq_mod)
  have "byte (48 + i - quo i 10 * 10) = byte (word_of_int (48 + ?k mod 10))"
    by (simp only: e m)
  also have "\<dots> = digit (nat (?k mod 10))"
    by (rule byte_small) simp_all
  also have "nat (?k mod 10) = nat ?k mod 10"
    using assms by (simp add: nat_mod_distrib)
  finally show ?thesis .
qed

lemma byte_last:
  assumes "0 \<le> sint i" "sint i < 10"
  shows "byte (48 + i) = digit (nat (sint i))"
proof -
  have "word_of_int (48 + sint i) = 48 + (word_of_int (sint i) :: go_int)"
    by (simp only: wi_hom_syms) simp
  then have "48 + i = word_of_int (48 + sint i)" by simp
  then show ?thesis using byte_small [OF assms] by simp
qed

lemma dec_small: "n < 10 \<Longrightarrow> dec n = [digit n]"
  by (simp add: dec.simps)

lemma dec_big: "10 \<le> n \<Longrightarrow> dec n = dec (n div 10) @ [digit (n mod 10)]"
  by (subst dec.simps) simp

lemma zpad_dec_step:
  assumes "10 \<le> n \<or> 1 < w"
  shows "zpad w (dec n) = zpad (w - 1) (dec (n div 10)) @ [digit (n mod 10)]"
proof (cases "10 \<le> n")
  case True
  then show ?thesis by (simp add: dec_big zpad_def)
next
  case False
  then have n: "n < 10" by simp
  with assms have w: "1 < w" by simp
  have "w - Suc 0 = Suc (w - 2)" using w by simp
  then have "replicate (w - Suc 0) (CHR ''0'') = replicate (w - 2) (CHR ''0'') @ [CHR ''0'']"
    by (simp only: replicate_Suc replicate_append_same)
  moreover have "digit 0 = CHR ''0''" by (simp add: digit_def char_of_def bit_iff_odd_drop_bit)
  ultimately show ?thesis using n w
    by (simp add: dec_small zpad_def numeral_2_eq_2)
qed

lemma length_dec_le: "0 < k \<Longrightarrow> n < 10 ^ k \<Longrightarrow> length (dec n) \<le> k"
proof (induction n arbitrary: k rule: dec.induct)
  case (1 n)
  show ?case
  proof (cases "n < 10")
    case True
    then show ?thesis using "1.prems" by (simp add: dec_small)
  next
    case False
    then obtain k' where k: "k = Suc k'" using "1.prems" by (cases k) simp_all
    have "0 < k'" using False "1.prems" k by (cases k') simp_all
    moreover have "n div 10 < 10 ^ k'" using "1.prems" k by (simp add: less_mult_imp_div_less)
    ultimately have "length (dec (n div 10)) \<le> k'" using False by (intro "1.IH") simp_all
    then show ?thesis using False k by (simp add: dec_big)
  qed
qed

lemma length_pad: "0 < w \<Longrightarrow> n < 10 ^ w \<Longrightarrow> length (pad w n) = w"
  using length_dec_le [of w n] by (simp add: pad_def zpad_def)

lemma replicate_5: "replicate 5 c = [c, c, c, c, c]"
  by (simp add: eval_nat_numeral)

section \<open>itoa writes decimal digits and does not panic\<close>

text \<open>
  The invariant of the loop: the digits still to come fit below the index \<open>bp\<close>. It holds
  at the start for every 64-bit value and every width up to 20, so the array is never
  left; for a value that is not negative the bytes written are its zero-padded decimal.
\<close>

lemma itoa_loop_run:
  "0 \<le> bp \<Longrightarrow> bp < int (length b) \<Longrightarrow> bp < 100 \<Longrightarrow> sint i < 10 ^ (nat bp + 1) \<Longrightarrow>
   sint wid \<le> bp + 1 \<Longrightarrow> - (2 ^ 62) \<le> sint wid - bp \<Longrightarrow>
   \<exists>b' bp' i'. itoa_loop b bp i wid = Some (b', bp', i') \<and> 0 \<le> bp' \<and>
     (0 \<le> sint i \<longrightarrow>
        drop (nat bp') (b'[nat bp' := byte (48 + i')]) =
        zpad (nat (sint wid)) (dec (nat (sint i))) @ drop (nat bp + 1) b)"
proof (induction b bp i wid rule: itoa_loop.induct)
  case (1 b bp i wid)
  show ?case
  proof (cases "10 \<le>s i \<or> 1 <s wid")
    case False
    then have small: "sint i < 10" "sint wid \<le> 1"
      by (simp_all add: word_sle_eq word_sless_alt)
    have eq: "itoa_loop b bp i wid = Some (b, bp, i)"
      using False by (subst itoa_loop.simps) simp
    have "0 \<le> sint i \<longrightarrow> drop (nat bp) (b[nat bp := byte (48 + i)]) =
            zpad (nat (sint wid)) (dec (nat (sint i))) @ drop (nat bp + 1) b"
    proof
      assume nn: "0 \<le> sint i"
      have l: "nat bp < length b" using "1.prems" by linarith
      have "drop (nat bp) (b[nat bp := byte (48 + i)]) = byte (48 + i) # drop (Suc (nat bp)) b"
        using l by (simp add: drop_update_cancel Cons_nth_drop_Suc [symmetric] upd_conv_take_nth_drop)
      moreover have "byte (48 + i) = digit (nat (sint i))"
        by (rule byte_last [OF nn small(1)])
      moreover have "zpad (nat (sint wid)) (dec (nat (sint i))) = [digit (nat (sint i))]"
        using nn small by (simp add: dec_small zpad_def)
      ultimately show "drop (nat bp) (b[nat bp := byte (48 + i)]) =
            zpad (nat (sint wid)) (dec (nat (sint i))) @ drop (nat bp + 1) b"
        by simp
    qed
    with eq "1.prems" show ?thesis by simp
  next
    case True
    let ?b1 = "b[nat bp := byte (48 + i - quo i 10 * 10)]"
    have c: "10 \<le> sint i \<or> 1 < sint wid"
      using True by (simp add: word_sle_eq word_sless_alt)
    have bp1: "1 \<le> bp"
    proof (rule ccontr)
      assume "\<not> 1 \<le> bp"
      with "1.prems" have "bp = 0" by simp
      with "1.prems" c show False by simp
    qed
    have wid: "sint (wid - 1) = sint wid - 1"
      using "1.prems" by (intro sint_pred) simp
    have q: "sint (quo i 10) = sint i sdiv 10" by (rule sint_quo10)
    have qlt: "sint (quo i 10) < 10 ^ (nat (bp - 1) + 1)"
    proof (cases "0 \<le> sint i")
      case True
      have "nat (bp - 1) + 1 = nat bp" using bp1 by simp
      moreover have "sint i < 10 * 10 ^ nat bp" using "1.prems" by simp
      then have "sint i div 10 < 10 ^ nat bp" by simp
      ultimately show ?thesis using True by (simp add: q sdiv10_nonneg)
    next
      case False
      then have "sint i sdiv 10 \<le> 0" by (simp add: sdiv10_neg)
      moreover have "(0::int) < 10 ^ (nat (bp - 1) + 1)" by simp
      ultimately show ?thesis by (simp only: q)
    qed
    have step: "itoa_loop b bp i wid = itoa_loop ?b1 (bp - 1) (quo i 10) (wid - 1)"
      using True "1.prems" by (subst itoa_loop.simps) (simp add: Let_def)
    have "\<exists>b' bp' i'. itoa_loop ?b1 (bp - 1) (quo i 10) (wid - 1) = Some (b', bp', i') \<and> 0 \<le> bp' \<and>
       (0 \<le> sint (quo i 10) \<longrightarrow>
        drop (nat bp') (b'[nat bp' := byte (48 + i')]) =
        zpad (nat (sint (wid - 1))) (dec (nat (sint (quo i 10)))) @ drop (nat (bp - 1) + 1) ?b1)"
    proof (rule "1.IH" [OF True refl refl])
      show "\<not> bp < 0" using "1.prems" by simp
      show "0 \<le> bp - 1" using bp1 by simp
      show "bp - 1 < int (length ?b1)" using "1.prems" by simp
      show "bp - 1 < 100" using "1.prems" by simp
      show "sint (quo i 10) < 10 ^ (nat (bp - 1) + 1)" by (rule qlt)
      show "sint (wid - 1) \<le> bp - 1 + 1" using "1.prems" wid by simp
      show "- (2 ^ 62) \<le> sint (wid - 1) - (bp - 1)" using "1.prems" wid by simp
    qed
    then obtain b' bp' i' where
      r: "itoa_loop ?b1 (bp - 1) (quo i 10) (wid - 1) = Some (b', bp', i')" "0 \<le> bp'"
      and d: "0 \<le> sint (quo i 10) \<longrightarrow>
        drop (nat bp') (b'[nat bp' := byte (48 + i')]) =
        zpad (nat (sint (wid - 1))) (dec (nat (sint (quo i 10)))) @ drop (nat (bp - 1) + 1) ?b1"
      by blast
    have "0 \<le> sint i \<longrightarrow> drop (nat bp') (b'[nat bp' := byte (48 + i')]) =
        zpad (nat (sint wid)) (dec (nat (sint i))) @ drop (nat bp + 1) b"
    proof
      assume nn: "0 \<le> sint i"
      let ?n = "nat (sint i)"
      have qn: "sint (quo i 10) = int (?n div 10)"
        using nn by (simp add: q sdiv10_nonneg zdiv_int)
      have l: "nat bp < length b" using "1.prems" by linarith
      have e: "nat (bp - 1) + 1 = nat bp" using bp1 by simp
      have d1: "drop (nat bp) ?b1 = byte (48 + i - quo i 10 * 10) # drop (Suc (nat bp)) b"
        using l by (simp add: upd_conv_take_nth_drop)
      have bd: "byte (48 + i - quo i 10 * 10) = digit (?n mod 10)"
        using nn by (rule byte_digit)
      have dr: "drop (nat (bp - 1) + 1) ?b1 = digit (?n mod 10) # drop (nat bp + 1) b"
        using d1 by (simp only: e bd) simp
      have cn: "10 \<le> ?n \<or> 1 < nat (sint wid)" using c nn by linarith
      have "nat (sint (wid - 1)) = nat (sint wid) - 1" using wid by simp
      then have "zpad (nat (sint (wid - 1))) (dec (?n div 10)) @ [digit (?n mod 10)] =
          zpad (nat (sint wid)) (dec ?n)"
        using zpad_dec_step [OF cn] by simp
      then show "drop (nat bp') (b'[nat bp' := byte (48 + i')]) =
        zpad (nat (sint wid)) (dec (nat (sint i))) @ drop (nat bp + 1) b"
        using d qn dr by simp
    qed
    with step r show ?thesis by simp
  qed
qed

lemma itoa_append: "itoa buf' i wid = map_option ((@) buf') (itoa [] i wid)"
  by (simp add: itoa_def split: option.splits)

lemma itoa_run:
  assumes "- 100 \<le> sint wid" "sint wid \<le> 20"
  shows "\<exists>d. itoa [] i wid = Some d \<and>
           (0 \<le> sint i \<longrightarrow> d = zpad (nat (sint wid)) (dec (nat (sint i))))"
proof -
  let ?b = "replicate 20 (CHR 0x00)"
  have "sint i < 2 ^ 63" using sint_range64 [of i] by simp
  then have lt: "sint i < 10 ^ (nat 19 + 1)" by simp
  have "\<exists>b' bp' i'. itoa_loop ?b 19 i wid = Some (b', bp', i') \<and> 0 \<le> bp' \<and>
     (0 \<le> sint i \<longrightarrow>
        drop (nat bp') (b'[nat bp' := byte (48 + i')]) =
        zpad (nat (sint wid)) (dec (nat (sint i))) @ drop (nat 19 + 1) ?b)"
    using assms lt by (intro itoa_loop_run) simp_all
  then obtain b' bp' i' where r: "itoa_loop ?b 19 i wid = Some (b', bp', i')" "0 \<le> bp'"
    and d: "0 \<le> sint i \<longrightarrow>
        drop (nat bp') (b'[nat bp' := byte (48 + i')]) =
        zpad (nat (sint wid)) (dec (nat (sint i))) @ drop (nat 19 + 1) ?b"
    by blast
  from r d show ?thesis by (simp add: itoa_def)
qed

lemma itoa_text_eq:
  assumes "- 100 \<le> sint wid" "sint wid \<le> 20"
  shows "itoa buf' i wid = Some (buf' @ itoa_text i wid)"
proof -
  from itoa_run [OF assms] obtain d where "itoa [] i wid = Some d" by blast
  then show ?thesis by (subst itoa_append) (simp add: itoa_text_def)
qed

lemma itoa_dec:
  assumes "0 \<le> sint i" "- 100 \<le> sint wid" "sint wid \<le> 20"
  shows "itoa buf' i wid = Some (buf' @ zpad (nat (sint wid)) (dec (nat (sint i))))"
proof -
  from itoa_run [OF assms(2,3)] assms(1)
  have "itoa [] i wid = Some (zpad (nat (sint wid)) (dec (nat (sint i))))" by blast
  then show ?thesis by (subst itoa_append) simp
qed

lemma itoa_text_dec:
  assumes "0 \<le> sint i" "- 100 \<le> sint wid" "sint wid \<le> 20"
  shows "itoa_text i wid = zpad (nat (sint wid)) (dec (nat (sint i)))"
  using itoa_dec [OF assms, of "[]"] by (simp add: itoa_text_def)

lemma itoa_text_pad:
  assumes "0 \<le>s i" "0 \<le> sint wid" "sint wid \<le> 20"
  shows "itoa_text i wid = pad (nat (sint wid)) (unat i)"
  using assms itoa_text_dec [of i wid] nat_sint_unat [of i]
  by (simp add: word_sle_eq pad_def)

lemma itoa_text_plain:
  assumes "0 \<le>s i"
  shows "itoa_text i (- 1) = dec (unat i)"
  using assms itoa_text_dec [of i "- 1"] nat_sint_unat [of i]
  by (simp add: word_sle_eq zpad_def)

section \<open>The short file name\<close>

text \<open>
  Without a separator the path is kept; with a last separator past the first byte the
  text after it is the result; a path whose only separator is its first byte is kept
  whole, since the loop never reads index 0.
\<close>

lemma short_loop_no_slash:
  "CHR ''/'' \<notin> set p \<Longrightarrow> i < int (length p) \<Longrightarrow> short_loop p i = p"
proof (induction p i rule: short_loop.induct)
  case (1 p i)
  show ?case
  proof (cases "i > 0")
    case True
    then have "p ! nat i \<in> set p" using "1.prems" by (intro nth_mem) simp
    then have ne: "p ! nat i \<noteq> CHR ''/''" using "1.prems" by auto
    have "short_loop p i = short_loop p (i - 1)"
      using True ne by (subst short_loop.simps) simp
    also have "\<dots> = p" using True ne "1.prems" by (intro "1.IH") simp_all
    finally show ?thesis .
  next
    case False
    then show ?thesis by (subst short_loop.simps) simp
  qed
qed

lemma short_loop_keep:
  "CHR ''/'' \<notin> set b \<Longrightarrow> k \<le> length b \<Longrightarrow> short_loop (CHR ''/'' # b) (int k) = CHR ''/'' # b"
proof (induction k)
  case 0
  show ?case by (subst short_loop.simps) simp
next
  case (Suc k)
  then have "b ! k \<in> set b" by (intro nth_mem) simp
  then have "b ! k \<noteq> CHR ''/''" using Suc.prems(1) by (auto simp del: nth_mem)
  then have "short_loop (CHR ''/'' # b) (int (Suc k)) = short_loop (CHR ''/'' # b) (int k)"
    by (subst short_loop.simps) (simp add: nat_add_distrib)
  then show ?case using Suc by simp
qed

lemma short_loop_strip_aux:
  "CHR ''/'' \<notin> set b \<Longrightarrow> a \<noteq> [] \<Longrightarrow> k \<le> length b \<Longrightarrow>
   short_loop (a @ CHR ''/'' # b) (int (length a + k)) = b"
proof (induction k)
  case 0
  then show ?case by (subst short_loop.simps) (simp add: nat_add_distrib)
next
  case (Suc k)
  then have "b ! k \<in> set b" by (intro nth_mem) simp
  then have ne: "b ! k \<noteq> CHR ''/''" using Suc.prems(1) by (auto simp del: nth_mem)
  have "(a @ CHR ''/'' # b) ! (length a + Suc k) = b ! k"
    by (simp add: nth_append)
  then have "short_loop (a @ CHR ''/'' # b) (int (length a + Suc k)) =
      short_loop (a @ CHR ''/'' # b) (int (length a + k))"
    using ne by (subst short_loop.simps) (simp add: nat_add_distrib)
  then show ?case using Suc by simp
qed

lemma short_loop_strip:
  assumes "CHR ''/'' \<notin> set b" "a \<noteq> []"
  shows "short_loop (a @ CHR ''/'' # b) (int (length (a @ CHR ''/'' # b)) - 1) = b"
  using short_loop_strip_aux [OF assms, of "length b"] by simp

lemma short_loop_root:
  assumes "CHR ''/'' \<notin> set b"
  shows "short_loop (CHR ''/'' # b) (int (length (CHR ''/'' # b)) - 1) = CHR ''/'' # b"
  using short_loop_keep [OF assms, of "length b"] by simp

section \<open>formatHeader in closed form\<close>

text \<open>
  formatHeader returns for every input, and appends the closed form.
\<close>

lemma formatHeader_eq:
  "formatHeader l buf' t file line =
     Some (buf' @ (if flag l AND Lmsgprefix = 0 then prefix l else []) @
           datetime_text l t @ file_text l file line @
           (if flag l AND Lmsgprefix \<noteq> 0 then prefix l else []))"
  unfolding formatHeader_def datetime_text_def file_text_def
  by (simp add: itoa_text_eq Let_def Date_def Clock_def Nanosecond_def)

lemma formatHeader_buf: "formatHeader (l\<lparr>buf := b\<rparr>) buf' t file line = formatHeader l buf' t file line"
  by (simp add: formatHeader_def)

lemma file_text_sentinel:
  "flag l AND (Lshortfile OR Llongfile) \<noteq> 0 \<Longrightarrow> file_text l ''???'' 0 = ''???:0: ''"
  by (simp add: file_text_def short_loop_no_slash itoa_text_dec dec_small zpad_def digit_simps)

lemma header_std_2024: "formatHeader (lg w_std) [] t2024 fl ln = Some ''2024/01/05 00:00:00 ''"
proof -
  have "datetime_text std0 t2024 = ''2024/01/05 00:00:00 ''"
    by (simp add: datetime_text_def std0_def New_def Stderr_def flag_defs t2024_def Let_def
        itoa_text_pad word_sle_eq pad_def zpad_def dec_big dec_small digit_simps digit_Suc0)
  moreover have "file_text std0 fl ln = []"
    by (simp add: file_text_def std0_def New_def Stderr_def flag_defs Let_def)
  ultimately show ?thesis
    by (simp add: formatHeader_eq w_std_def) (simp add: std0_def New_def Stderr_def flag_defs Let_def)
qed

section \<open>Output in closed form\<close>

text \<open>
  One equation for every call of Output: the header is the same for every function
  name, colour, cause, message and previous content of the buffer.
\<close>

lemma last_index: "s \<noteq> [] \<Longrightarrow> s ! (length s - Suc 0) = last s"
  by (simp add: last_conv_nth)

lemma Output_nofile:
  assumes "flag (lg w) AND (Lshortfile OR Llongfile) = 0"
    and "formatHeader (lg w) [] now [] 0 = Some h"
  shows "Output env now callers functionName color err calldepth s w =
    (let bytes = color @ ''TIME: '' @ h @ s @ (if s = [] \<or> last s \<noteq> nl then [nl] else []) @ Reset env
     in Some (fst (Write env (out (lg w)) bytes (trace w)),
              \<lparr>lg = (lg w)\<lparr>buf := bytes\<rparr>, trace = trace w @ [WriteEv (out (lg w)) bytes]\<rparr>))"
  using assms
  by (cases "s = []")
    (simp_all add: Output_def Let_def Write_def last_index formatHeader_buf split: writer.splits)

lemma Output_file:
  assumes "flag (lg w) AND (Lshortfile OR Llongfile) \<noteq> 0"
    and "Caller env (own_frame env ''Output'' # callers) calldepth = (pc, f, ln, ok)"
    and "formatHeader (lg w) [] now (if ok then f else ''???'') (if ok then ln else 0) = Some h"
  shows "Output env now callers functionName color err calldepth s w =
    (let bytes = color @ ''TIME: '' @ h @ s @ (if s = [] \<or> last s \<noteq> nl then [nl] else []) @ Reset env
     in Some (fst (Write env (out (lg w)) bytes (trace w @ [CallerEv calldepth])),
              \<lparr>lg = (lg w)\<lparr>buf := bytes\<rparr>,
               trace = trace w @ [CallerEv calldepth] @ [WriteEv (out (lg w)) bytes]\<rparr>))"
  using assms
  by (cases "s = []"; cases ok)
    (simp_all add: Output_def Let_def Write_def last_index formatHeader_buf split: writer.splits)

lemma trailing_nl_snoc: "trailing_nl (xs @ [c]) = (if c = nl then Suc (trailing_nl xs) else 0)"
  by (simp add: trailing_nl_def)

lemma trailing_nl_pos: "xs \<noteq> [] \<Longrightarrow> last xs = nl \<Longrightarrow> 0 < trailing_nl xs"
  by (cases xs rule: rev_cases) (simp_all add: trailing_nl_snoc)

lemma trailing_nl_zero: "xs = [] \<or> last xs \<noteq> nl \<Longrightarrow> trailing_nl xs = 0"
  by (cases xs rule: rev_cases) (simp_all add: trailing_nl_snoc trailing_nl_def)

lemma trailing_nl_fix:
  "trailing_nl (s @ (if s = [] \<or> last s \<noteq> nl then [nl] else [])) = max 1 (trailing_nl s)"
proof (cases "s = [] \<or> last s \<noteq> nl")
  case True
  then show ?thesis using trailing_nl_zero [OF True] by (simp add: trailing_nl_snoc)
next
  case False
  then have "0 < trailing_nl s" by (intro trailing_nl_pos) simp_all
  with False show ?thesis by (simp add: max_def)
qed

lemma Output_explicit:
  "\<exists>file line h.
     formatHeader (lg w) [] now file line = Some h \<and>
     (\<forall>functionName color err s b0.
        Output env now callers functionName color err calldepth s (w\<lparr>lg := (lg w)\<lparr>buf := b0\<rparr>\<rparr>) =
          (let tr = trace w @ (if flag (lg w) AND (Lshortfile OR Llongfile) \<noteq> 0
                               then [CallerEv calldepth] else []);
               bytes = color @ ''TIME: '' @ h @ s @
                       (if s = [] \<or> last s \<noteq> nl then [nl] else []) @ Reset env
           in Some (fst (Write env (out (lg w)) bytes tr),
                    \<lparr>lg = (lg w)\<lparr>buf := bytes\<rparr>,
                     trace = tr @ [WriteEv (out (lg w)) bytes]\<rparr>)))"
proof (cases "flag (lg w) AND (Lshortfile OR Llongfile) = 0")
  case True
  obtain h where h: "formatHeader (lg w) [] now [] 0 = Some h"
    by (simp add: formatHeader_eq)
  have "Output env now callers functionName color err calldepth s (w\<lparr>lg := (lg w)\<lparr>buf := b0\<rparr>\<rparr>) =
          (let bytes = color @ ''TIME: '' @ h @ s @
                       (if s = [] \<or> last s \<noteq> nl then [nl] else []) @ Reset env
           in Some (fst (Write env (out (lg w)) bytes (trace w)),
                    \<lparr>lg = (lg w)\<lparr>buf := bytes\<rparr>,
                     trace = trace w @ [WriteEv (out (lg w)) bytes]\<rparr>))"
    for functionName color err s b0
    using Output_nofile [of "w\<lparr>lg := (lg w)\<lparr>buf := b0\<rparr>\<rparr>" now h env callers functionName color err calldepth s]
      True h by (simp add: formatHeader_buf Let_def)
  then show ?thesis
    using True h by (intro exI [of _ "[]"] exI [of _ 0] exI [of _ h]) (simp add: Let_def)
next
  case False
  obtain pc f ln ok
    where c: "Caller env (own_frame env ''Output'' # callers) calldepth = (pc, f, ln, ok)"
    by (metis prod_cases4)
  obtain h
    where h: "formatHeader (lg w) [] now (if ok then f else ''???'') (if ok then ln else 0) = Some h"
    by (simp add: formatHeader_eq)
  have "Output env now callers functionName color err calldepth s (w\<lparr>lg := (lg w)\<lparr>buf := b0\<rparr>\<rparr>) =
          (let bytes = color @ ''TIME: '' @ h @ s @
                       (if s = [] \<or> last s \<noteq> nl then [nl] else []) @ Reset env
           in Some (fst (Write env (out (lg w)) bytes (trace w @ [CallerEv calldepth])),
                    \<lparr>lg = (lg w)\<lparr>buf := bytes\<rparr>,
                     trace = trace w @ [CallerEv calldepth] @ [WriteEv (out (lg w)) bytes]\<rparr>))"
    for functionName color err s b0
    using Output_file [of "w\<lparr>lg := (lg w)\<lparr>buf := b0\<rparr>\<rparr>" env callers calldepth pc f ln ok now h functionName color err s]
      False c h by (simp add: formatHeader_buf Let_def)
  then show ?thesis
    using False h
    by (intro exI [of _ "if ok then f else ''???''"] exI [of _ "if ok then ln else 0"] exI [of _ h])
       (simp add: Let_def)
qed

lemma world_same: "w\<lparr>lg := (lg w)\<lparr>buf := buf (lg w)\<rparr>\<rparr> = w"
  by simp

lemma Sprint_string: "Sprint [Str m] = m"
  by (simp add: Sprint_def)

section \<open>The claims\<close>

text \<open>
  C8. The invariant "the discard flag is set if and only if the output sink is the
  discard sink" holds of the Logger that New returns, for every sink, prefix and flags,
  and of the Logger after SetOutput, for every Logger before and every writer.
\<close>

theorem discard_inv_New_SetOutput:
  "discard_inv (New w p f) \<and> discard_inv (SetOutput l w')"
  by (simp add: discard_inv_def New_def SetOutput_def Let_def)

text \<open>
  C10. SetOutput changes the output sink and the discard flag only: prefix, flags and
  accumulation buffer of the Logger are as before.
\<close>

theorem SetOutput_frame:
  "prefix (SetOutput l w) = prefix l \<and> flag (SetOutput l w) = flag l \<and>
   buf (SetOutput l w) = buf l \<and>
   SetOutput l w = l\<lparr>out := w, isDiscard := (if w = Discard then 1 else 0)\<rparr>"
  by (simp add: SetOutput_def Let_def)

text \<open>
  C1. Every call of Output makes exactly one write to the sink of the Logger. The bytes
  written are the colour, the marker \<open>TIME: \<close>, the formatted header, the message with
  its closing newline, and the reset sequence; the error returned is the error of that
  write. Neither depends on the arguments \<open>functionName\<close> and \<open>err\<close>: the three branches
  on them give the same result. (The trace grows by the write alone, after the one
  \<open>runtime.Caller\<close> lookup when a file flag is set.)
\<close>

theorem Output_single_write:
  "\<exists>file line h.
     formatHeader (lg w) [] now file line = Some h \<and>
     (let tr = trace w @ (if flag (lg w) AND (Lshortfile OR Llongfile) \<noteq> 0
                          then [CallerEv calldepth] else []);
          bytes = color @ ''TIME: '' @ h @ s @
                  (if s = [] \<or> last s \<noteq> nl then [nl] else []) @ Reset env
      in Output env now callers functionName color err calldepth s w =
           Some (fst (Write env (out (lg w)) bytes tr),
                 \<lparr>lg = (lg w)\<lparr>buf := bytes\<rparr>, trace = tr @ [WriteEv (out (lg w)) bytes]\<rparr>)) \<and>
     (\<forall>functionName' err'.
        Output env now callers functionName' color err' calldepth s w =
        Output env now callers functionName color err calldepth s w)"
proof -
  from Output_explicit [of w now env callers calldepth]
  obtain fl ln h where h: "formatHeader (lg w) [] now fl ln = Some h"
    and eq: "\<And>functionName color err s b0.
        Output env now callers functionName color err calldepth s (w\<lparr>lg := (lg w)\<lparr>buf := b0\<rparr>\<rparr>) =
          (let tr = trace w @ (if flag (lg w) AND (Lshortfile OR Llongfile) \<noteq> 0
                               then [CallerEv calldepth] else []);
               bytes = color @ ''TIME: '' @ h @ s @
                       (if s = [] \<or> last s \<noteq> nl then [nl] else []) @ Reset env
           in Some (fst (Write env (out (lg w)) bytes tr),
                    \<lparr>lg = (lg w)\<lparr>buf := bytes\<rparr>,
                     trace = tr @ [WriteEv (out (lg w)) bytes]\<rparr>))"
    by blast
  note eq' = eq [of _ _ _ _ "buf (lg w)", unfolded world_same]
  show ?thesis
    by (intro exI [of _ fl] exI [of _ ln] exI [of _ h]) (simp add: h eq')
qed

text \<open>
  C2 (as amended). For every message \<open>s\<close>, Output starts from an empty buffer whatever
  the buffer held, writes the header, appends \<open>s\<close>, and appends one newline if and only
  if \<open>s\<close> is empty or does not end with a newline. The accumulated line therefore always
  ends with a newline, and the message in it ends with \<open>max 1 k\<close> newlines, \<open>k\<close> being
  the number of newlines \<open>s\<close> ended with: exactly one when \<open>s\<close> ended with none or one,
  and all \<open>k\<close> of them when \<open>s\<close> ended with more.
\<close>

theorem Output_newline:
  "\<exists>file line h e tr.
     formatHeader (lg w) [] now file line = Some h \<and>
     (let fix = (if s = [] \<or> last s \<noteq> nl then [nl] else []);
          acc = h @ s @ fix
      in Output env now callers functionName color err calldepth s w =
           Some (e, \<lparr>lg = (lg w)\<lparr>buf := color @ ''TIME: '' @ acc @ Reset env\<rparr>, trace = tr\<rparr>) \<and>
         last acc = nl \<and>
         trailing_nl (s @ fix) = max 1 (trailing_nl s)) \<and>
     (\<forall>b0. Output env now callers functionName color err calldepth s (w\<lparr>lg := (lg w)\<lparr>buf := b0\<rparr>\<rparr>) =
           Output env now callers functionName color err calldepth s w)"
proof -
  from Output_explicit [of w now env callers calldepth]
  obtain fl ln h where h: "formatHeader (lg w) [] now fl ln = Some h"
    and eq: "\<And>functionName color err s b0.
        Output env now callers functionName color err calldepth s (w\<lparr>lg := (lg w)\<lparr>buf := b0\<rparr>\<rparr>) =
          (let tr = trace w @ (if flag (lg w) AND (Lshortfile OR Llongfile) \<noteq> 0
                               then [CallerEv calldepth] else []);
               bytes = color @ ''TIME: '' @ h @ s @
                       (if s = [] \<or> last s \<noteq> nl then [nl] else []) @ Reset env
           in Some (fst (Write env (out (lg w)) bytes tr),
                    \<lparr>lg = (lg w)\<lparr>buf := bytes\<rparr>,
                     trace = tr @ [WriteEv (out (lg w)) bytes]\<rparr>))"
    by blast
  note eq' = eq [of _ _ _ _ "buf (lg w)", unfolded world_same]
  have t: "trailing_nl (s @ (if s = [] \<or> last s \<noteq> nl then [nl] else [])) = max 1 (trailing_nl s)"
    by (rule trailing_nl_fix)
  show ?thesis
    apply (rule exI [of _ fl], rule exI [of _ ln], rule exI [of _ h])
    apply (simp only: eq eq' Let_def h)
    using t apply auto
    done
qed

text \<open>
  C2 as stated fails: the message \<open>a\<close> followed by two newlines is accumulated as it
  is (no header: the Logger has no flags and no prefix), so the accumulated line, between
  the marker and the reset sequence, ends with two newlines.
\<close>

theorem Output_newline_counterexample:
  "Output env0 t2024 main_stack [] (Green env0) None 2 [CHR ''a'', nl, nl]
     \<lparr>lg = New Stderr [] 0, trace = []\<rparr> =
   Some (None,
     \<lparr>lg = (New Stderr [] 0)\<lparr>buf := Green env0 @ ''TIME: '' @ [CHR ''a'', nl, nl] @ Reset env0\<rparr>,
      trace = [WriteEv Stderr (Green env0 @ ''TIME: '' @ [CHR ''a'', nl, nl] @ Reset env0)]\<rparr>) \<and>
   trailing_nl [CHR ''a'', nl, nl] = 2"
  by (simp add: Output_def formatHeader_eq datetime_text_def file_text_def New_def env0_def
      Write_def Stderr_def flag_defs trailing_nl_def Let_def)

text \<open>
  C7. When a file flag is set and \<open>runtime.Caller\<close> reports failure, Output formats the
  header with the file \<open>???\<close> and the line 0 (the header holds \<open>???:0: \<close>) and completes
  as any other call: one write of the whole line, whose error is returned.
\<close>

theorem Output_caller_failure:
  assumes "flag (lg w) AND (Lshortfile OR Llongfile) \<noteq> 0"
    and "Caller env (own_frame env ''Output'' # callers) calldepth = (pc, f, ln, False)"
  shows "\<exists>h a b.
     formatHeader (lg w) [] now ''???'' 0 = Some h \<and> h = a @ ''???:0: '' @ b \<and>
     (let tr = trace w @ [CallerEv calldepth];
          bytes = color @ ''TIME: '' @ h @ s @
                  (if s = [] \<or> last s \<noteq> nl then [nl] else []) @ Reset env
      in Output env now callers functionName color err calldepth s w =
           Some (fst (Write env (out (lg w)) bytes tr),
                 \<lparr>lg = (lg w)\<lparr>buf := bytes\<rparr>, trace = tr @ [WriteEv (out (lg w)) bytes]\<rparr>))"
proof -
  let ?a = "(if flag (lg w) AND Lmsgprefix = 0 then prefix (lg w) else []) @ datetime_text (lg w) now"
  let ?b = "if flag (lg w) AND Lmsgprefix \<noteq> 0 then prefix (lg w) else []"
  let ?h = "?a @ ''???:0: '' @ ?b"
  have h: "formatHeader (lg w) [] now ''???'' 0 = Some ?h"
    using assms(1) by (simp add: formatHeader_eq file_text_sentinel)
  then have h': "formatHeader (lg w) [] now (if False then f else ''???'') (if False then ln else 0) = Some ?h"
    by simp
  note eq = Output_file [OF assms(1) assms(2) h', of functionName color err s]
  show ?thesis
    apply (rule exI [of _ ?h], rule exI [of _ ?a], rule exI [of _ ?b])
    apply (simp only: h eq Let_def)
    apply simp
    done
qed

text \<open>
  The witness of C7: a Logger with the short-file flag, called with depth 2 on a stack
  that has no frame 2.
\<close>

theorem Output_caller_failure_witness:
  "flag (lg w_short) AND (Lshortfile OR Llongfile) \<noteq> 0 \<and>
   Caller env0 (own_frame env0 ''Output'' # main_stack) 2 = (0, [], 0, False) \<and>
   Output env0 t2024 main_stack [] (Green env0) None 2 ''hi'' w_short =
     Some (None,
       \<lparr>lg = (lg w_short)\<lparr>buf := Green env0 @ ''TIME: '' @ ''???:0: '' @ ''hi'' @ [nl] @ Reset env0\<rparr>,
        trace = [CallerEv 2,
                 WriteEv Stderr (Green env0 @ ''TIME: '' @ ''???:0: '' @ ''hi'' @ [nl] @ Reset env0)]\<rparr>)"
proof -
  have f: "flag (lg w_short) AND (Lshortfile OR Llongfile) \<noteq> 0"
    by (simp add: w_short_def New_def flag_defs Stderr_def Let_def)
  have c: "Caller env0 (own_frame env0 ''Output'' # main_stack) 2 = (0, [], 0, False)"
    by (simp add: Caller_def main_stack_def env0_def word_sless_alt)
  have h: "formatHeader (lg w_short) [] t2024 ''???'' 0 = Some ''???:0: ''"
    using f by (simp add: formatHeader_eq file_text_sentinel)
       (simp add: w_short_def New_def flag_defs datetime_text_def Stderr_def Let_def)
  from Output_caller_failure [OF f c, of t2024 "Green env0" "''hi''" "[]" None] h
  show ?thesis using f c
    by (simp add: Let_def Write_def w_short_def New_def Stderr_def env0_def)
qed

text \<open>
  C5. For a time whose fields are in their calendar ranges (a year of at most four
  digits) and a line number that is not negative, formatHeader appends, in this order:
  the prefix when Lmsgprefix is unset; with Ldate the date \<open>YYYY/MM/DD \<close>, the year
  padded to 4 digits, month and day to 2; with Ltime or Lmicroseconds the time
  \<open>HH:MM:SS\<close>, each padded to 2 digits, then with Lmicroseconds a dot and the
  microseconds padded to 6 digits, then a space; with a file flag the path, a colon, the
  line number without padding, a colon and a space; the prefix when Lmsgprefix is set.
  Date and time are read in UTC when LUTC is set.
\<close>

theorem formatHeader_layout:
  assumes "civil_ok (wall (if flag l AND LUTC \<noteq> 0 then UTC t else t))" and "0 \<le>s line"
  shows
    "let c = wall (if flag l AND LUTC \<noteq> 0 then UTC t else t);
         date = pad 4 (unat (c_year c)) @ ''/'' @ pad 2 (unat (c_month c)) @ ''/'' @
                pad 2 (unat (c_day c)) @ '' '';
         micro = ''.'' @ pad 6 (unat (c_nanosecond c) div 1000);
         clock = pad 2 (unat (c_hour c)) @ '':'' @ pad 2 (unat (c_minute c)) @ '':'' @
                 pad 2 (unat (c_second c)) @
                 (if flag l AND Lmicroseconds \<noteq> 0 then micro else []) @ '' '';
         path = (if flag l AND Lshortfile \<noteq> 0
                 then short_loop file (int (length file) - 1) else file)
     in formatHeader l buf' t file line =
          Some (buf' @
                (if flag l AND Lmsgprefix = 0 then prefix l else []) @
                (if flag l AND Ldate \<noteq> 0 then date else []) @
                (if flag l AND (Ltime OR Lmicroseconds) \<noteq> 0 then clock else []) @
                (if flag l AND (Lshortfile OR Llongfile) \<noteq> 0
                 then path @ '':'' @ dec (unat line) @ '': '' else []) @
                (if flag l AND Lmsgprefix \<noteq> 0 then prefix l else [])) \<and>
        length (pad 4 (unat (c_year c))) = 4 \<and>
        length (pad 2 (unat (c_month c))) = 2 \<and> length (pad 2 (unat (c_day c))) = 2 \<and>
        length (pad 2 (unat (c_hour c))) = 2 \<and> length (pad 2 (unat (c_minute c))) = 2 \<and>
        length (pad 2 (unat (c_second c))) = 2 \<and>
        length (pad 6 (unat (c_nanosecond c) div 1000)) = 6"
proof -
  define c where "c = wall (if flag l AND LUTC \<noteq> 0 then UTC t else t)"
  have ok: "civil_ok c" using assms(1) by (simp add: c_def)
  have y: "0 \<le>s c_year c" "c_year c \<le>s 9999" and mo: "0 \<le>s c_month c" "c_month c \<le>s 12"
    and d: "0 \<le>s c_day c" "c_day c \<le>s 31" and h: "0 \<le>s c_hour c" "c_hour c \<le>s 23"
    and mi: "0 \<le>s c_minute c" "c_minute c \<le>s 59" and se: "0 \<le>s c_second c" "c_second c \<le>s 59"
    and ns: "0 \<le>s c_nanosecond c" "c_nanosecond c \<le>s 999999999"
    using ok by (auto simp: civil_ok_def word_sle_eq)
  have ty: "itoa_text (c_year c) 4 = pad 4 (unat (c_year c))"
    using itoa_text_pad [OF y(1), of 4] by simp
  have tmo: "itoa_text (c_month c) 2 = pad 2 (unat (c_month c))"
    using itoa_text_pad [OF mo(1), of 2] by simp
  have td: "itoa_text (c_day c) 2 = pad 2 (unat (c_day c))"
    using itoa_text_pad [OF d(1), of 2] by simp
  have th: "itoa_text (c_hour c) 2 = pad 2 (unat (c_hour c))"
    using itoa_text_pad [OF h(1), of 2] by simp
  have tmi: "itoa_text (c_minute c) 2 = pad 2 (unat (c_minute c))"
    using itoa_text_pad [OF mi(1), of 2] by simp
  have tse: "itoa_text (c_second c) 2 = pad 2 (unat (c_second c))"
    using itoa_text_pad [OF se(1), of 2] by simp
  have tns: "itoa_text (quo (c_nanosecond c) 1000) 6 = pad 6 (unat (c_nanosecond c) div 1000)"
    using itoa_text_pad [OF unat_quo_1000(2) [OF ns(1)], of 6] unat_quo_1000(1) [OF ns(1)] by simp
  have tl: "itoa_text line (- 1) = dec (unat line)"
    using assms(2) by (rule itoa_text_plain)
  have dt: "datetime_text l t =
      (if flag l AND Ldate \<noteq> 0
       then pad 4 (unat (c_year c)) @ ''/'' @ pad 2 (unat (c_month c)) @ ''/'' @
            pad 2 (unat (c_day c)) @ '' '' else []) @
      (if flag l AND (Ltime OR Lmicroseconds) \<noteq> 0
       then pad 2 (unat (c_hour c)) @ '':'' @ pad 2 (unat (c_minute c)) @ '':'' @
            pad 2 (unat (c_second c)) @
            (if flag l AND Lmicroseconds \<noteq> 0
             then ''.'' @ pad 6 (unat (c_nanosecond c) div 1000) else []) @ '' ''
       else [])"
    unfolding datetime_text_def c_def [symmetric] Let_def
    by (simp add: ty tmo td th tmi tse tns and_or_zero)
  have ft: "file_text l file line =
      (if flag l AND (Lshortfile OR Llongfile) \<noteq> 0
       then (if flag l AND Lshortfile \<noteq> 0
             then short_loop file (int (length file) - 1) else file) @
            '':'' @ dec (unat line) @ '': '' else [])"
    by (simp add: file_text_def tl)
  have len: "length (pad 4 (unat (c_year c))) = 4"
    "length (pad 2 (unat (c_month c))) = 2" "length (pad 2 (unat (c_day c))) = 2"
    "length (pad 2 (unat (c_hour c))) = 2" "length (pad 2 (unat (c_minute c))) = 2"
    "length (pad 2 (unat (c_second c))) = 2"
    "length (pad 6 (unat (c_nanosecond c) div 1000)) = 6"
    using unat_le_of_sle [OF y] unat_le_of_sle [OF mo] unat_le_of_sle [OF d]
      unat_le_of_sle [OF h] unat_le_of_sle [OF mi] unat_le_of_sle [OF se] unat_le_of_sle [OF ns]
    by (simp_all add: length_pad)
  show ?thesis
    unfolding Let_def c_def [symmetric]
    by (simp only: formatHeader_eq dt ft len) simp
qed


text \<open>
  The witness of C5 holds the example of the claim: with Ldate alone, the time
  2024-01-05T00:00:00Z gives the header \<open>2024/01/05 \<close>. With a prefix and the flags for
  date, time, microseconds, short file and UTC it gives the full layout.
\<close>

theorem formatHeader_layout_witness:
  "civil_ok (wall t2024) \<and> (0 :: go_int) \<le>s 13 \<and>
   formatHeader (New Stderr [] Ldate) [] t2024 ''/app/main.go'' 13 = Some ''2024/01/05 '' \<and>
   formatHeader (New Stderr ''p: '' (Ldate OR Ltime OR Lmicroseconds OR Lshortfile OR LUTC)) []
     t2024 ''/app/main.go'' 13 = Some ''p: 2024/01/05 00:00:00.000000 main.go:13: ''"
proof -
  have ok: "civil_ok (wall t2024)"
    by (simp add: civil_ok_def t2024_def Let_def word_sle_eq)
  have ok1: "civil_ok (wall (if flag (New Stderr [] Ldate) AND LUTC \<noteq> 0 then UTC t2024 else t2024))"
    using ok by (simp add: New_def Stderr_def flag_defs Let_def)
  have ok2: "civil_ok (wall (if flag (New Stderr ''p: '' (Ldate OR Ltime OR Lmicroseconds OR Lshortfile OR LUTC)) AND LUTC \<noteq> 0
       then UTC t2024 else t2024))"
    using ok by (simp add: New_def Stderr_def flag_defs Let_def UTC_def t2024_def)
  have ln: "(0 :: go_int) \<le>s 13" by (simp add: word_sle_eq)
  show ?thesis
    using ok ln formatHeader_layout [OF ok1 ln, of "''/app/main.go''" "[]"]
      formatHeader_layout [OF ok2 ln, of "''/app/main.go''" "[]"]
    by (simp add: Let_def New_def Stderr_def flag_defs t2024_def UTC_def pad_def zpad_def
        dec_big dec_small digit_simps digit_Suc0 short_loop.simps replicate_5)
qed

text \<open>
  C6. With the short-file flag, a path whose only separator is its first character is
  not shortened: \<open>/d.ext\<close> at line 23 is rendered as \<open>/d.ext:23: \<close>, where the claim
  (and the comment on Lshortfile: the final file name element) asks for \<open>d.ext:23: \<close>.
  The loop stops at \<open>i > 0\<close> and never looks at index 0. The lemmas \<open>short_loop_strip\<close>
  and \<open>short_loop_root\<close> give both cases in general. The rest of the claim holds on its
  own example: \<open>/a/b/c/d.ext\<close> becomes \<open>d.ext\<close> with the short flag, also beside the long
  flag, and stays whole with the long flag alone.
\<close>

theorem formatHeader_short_root:
  "formatHeader (New Stderr [] Lshortfile) [] t ''/d.ext'' 23 = Some ''/d.ext:23: '' \<and>
   formatHeader (New Stderr [] (Lshortfile OR Llongfile)) [] t ''/a/b/c/d.ext'' 23 =
     Some ''d.ext:23: '' \<and>
   formatHeader (New Stderr [] Llongfile) [] t ''/a/b/c/d.ext'' 23 = Some ''/a/b/c/d.ext:23: ''"
proof -
  have n: "itoa_text 23 (- 1) = ''23''"
    using itoa_text_plain [of 23]
    by (simp add: word_sle_eq dec_big dec_small digit_simps)
  have r: "short_loop ''/d.ext'' 5 = ''/d.ext''"
    using short_loop_root [of "''d.ext''"] by simp
  have q: "short_loop ''/a/b/c/d.ext'' 11 = ''d.ext''"
    using short_loop_strip [of "''d.ext''" "''/a/b/c''"] by simp
  show ?thesis
    by (simp add: formatHeader_eq datetime_text_def file_text_def New_def Stderr_def flag_defs
        Let_def n r q)
qed


text \<open>
  C3 as stated fails: with the discard flag set, Println still looks up its caller
  twice (\<open>runtime.Caller(1)\<close> in Println and in getCurrentFuncName) before it reads the
  flag.
\<close>

theorem level_discard_counterexample:
  "isDiscard (lg w_discard) \<noteq> 0 \<and> trace w_discard = [] \<and>
   Println env0 t2024 main_stack [Str ''Salom hammaga''] w_discard =
     Some \<lparr>lg = lg w_discard, trace = [CallerEv 1, CallerEv 1]\<rparr>"
  by (simp add: Println_def getCurrentFuncName_def w_discard_def SetOutput_def std0_def New_def
      Let_def split_def)

text \<open>
  C3 (as amended). When the discard flag of the Logger is set, each of Println, Info,
  Error and Warning returns after its two caller lookups and does nothing else: the
  Logger, its buffer included, is unchanged, no write reaches any sink, and the call
  does not fail.
\<close>

theorem level_discard:
  assumes "isDiscard (lg w) \<noteq> 0"
  shows "Println env now callers v w = Some (w\<lparr>trace := trace w @ [CallerEv 1, CallerEv 1]\<rparr>) \<and>
         Info env now callers v w = Some (w\<lparr>trace := trace w @ [CallerEv 1, CallerEv 1]\<rparr>) \<and>
         Error env now callers msg err w = Some (w\<lparr>trace := trace w @ [CallerEv 1, CallerEv 1]\<rparr>) \<and>
         Warning env now callers v w = Some (w\<lparr>trace := trace w @ [CallerEv 1, CallerEv 1]\<rparr>)"
  using assms
  by (simp add: Println_def Info_def Error_def Warning_def getCurrentFuncName_def Let_def split_def)

text \<open>
  The witness of C3 as amended: the package's Logger after \<open>SetOutput(io.Discard)\<close>.
\<close>

theorem level_discard_witness:
  "isDiscard (lg w_discard) \<noteq> 0 \<and>
   Println env0 t2024 main_stack [Str ''Salom hammaga''] w_discard =
     Some (w_discard\<lparr>trace := [CallerEv 1, CallerEv 1]\<rparr>) \<and>
   Info env0 t2024 main_stack [Str ''Salom hammaga''] w_discard =
     Some (w_discard\<lparr>trace := [CallerEv 1, CallerEv 1]\<rparr>) \<and>
   Error env0 t2024 main_stack ''shu joyda'' (Some ''Xato'') w_discard =
     Some (w_discard\<lparr>trace := [CallerEv 1, CallerEv 1]\<rparr>) \<and>
   Warning env0 t2024 main_stack [Str ''Salom hammaga''] w_discard =
     Some (w_discard\<lparr>trace := [CallerEv 1, CallerEv 1]\<rparr>)"
proof -
  have d: "isDiscard (lg w_discard) \<noteq> 0"
    by (simp add: w_discard_def SetOutput_def Let_def)
  have t: "trace w_discard = []" by (simp add: w_discard_def)
  show ?thesis
    using d t level_discard [OF d, of env0 t2024 main_stack "[Str ''Salom hammaga'']" "''shu joyda''" "Some ''Xato''"]
    by simp
qed


text \<open>
  C4. When the discard flag is not set, \<open>Error(m, nil)\<close> writes a line in the colour Green,
  which is not Red, whose message holds \<open>MESSAGE: m\<close> and the literal \<open>ERROR: NO ERROR\<close>;
  \<open>Error(m, e)\<close> for a cause \<open>e\<close> that is not nil writes the line in Red, with
  \<open>ERROR: \<close> followed by the text of \<open>e\<close>. (That Green and Red differ is a fact of the
  colour constants, which are parameters here.)
\<close>

theorem Error_renders:
  assumes "isDiscard (lg w) = 0" and "Green env \<noteq> Red env"
  shows "\<exists>fl ln h c.
     formatHeader (lg w) [] now fl ln = Some h \<and> c = Green env \<and> c \<noteq> Red env \<and>
     (case Caller env (own_frame env ''Error'' # callers) 1 of
        (pc, filename, line, ok) \<Rightarrow>
          let place = [nl, tab] @ ''PATH: '' @ filename @ [nl, tab] @ ''LOG LINE: '' @ Itoa line;
              tr = trace w @ [CallerEv 1, CallerEv 1] @
                   (if flag (lg w) AND (Lshortfile OR Llongfile) \<noteq> 0 then [CallerEv 2] else []);
              s0 = place @ c @ [nl, tab] @ ''MESSAGE: '' @ m @ [nl, tab] @ ''ERROR: NO ERROR'' @
                   Reset env;
              bytes0 = c @ ''TIME: '' @ h @ s0 @ (if last s0 \<noteq> nl then [nl] else []) @ Reset env
          in Error env now callers m None w =
               Some \<lparr>lg = (lg w)\<lparr>buf := bytes0\<rparr>, trace = tr @ [WriteEv (out (lg w)) bytes0]\<rparr> \<and>
             (\<forall>e. let s1 = place @ Red env @ [nl, tab] @ ''MESSAGE: '' @ m @ [nl, tab] @
                             ''ERROR: '' @ e @ Reset env;
                      bytes1 = Red env @ ''TIME: '' @ h @ s1 @
                               (if last s1 \<noteq> nl then [nl] else []) @ Reset env
                  in Error env now callers m (Some e) w =
                       Some \<lparr>lg = (lg w)\<lparr>buf := bytes1\<rparr>,
                             trace = tr @ [WriteEv (out (lg w)) bytes1]\<rparr>))"
proof -
  let ?stk = "own_frame env ''Error'' # callers"
  obtain pc filename line ok where c: "Caller env ?stk 1 = (pc, filename, line, ok)"
    by (metis prod_cases4)
  obtain pc' f' l' ok' where c': "Caller env (own_frame env ''getCurrentFuncName'' # ?stk) 1 = (pc', f', l', ok')"
    by (metis prod_cases4)
  let ?w2 = "w\<lparr>trace := trace w @ [CallerEv 1, CallerEv 1]\<rparr>"
  from Output_explicit [of ?w2 now env ?stk 2]
  obtain fl ln h where h: "formatHeader (lg w) [] now fl ln = Some h"
    and eq: "\<And>functionName color err s b0.
        Output env now ?stk functionName color err 2 s (?w2\<lparr>lg := (lg ?w2)\<lparr>buf := b0\<rparr>\<rparr>) =
          (let tr = trace ?w2 @ (if flag (lg ?w2) AND (Lshortfile OR Llongfile) \<noteq> 0
                               then [CallerEv 2] else []);
               bytes = color @ ''TIME: '' @ h @ s @
                       (if s = [] \<or> last s \<noteq> nl then [nl] else []) @ Reset env
           in Some (fst (Write env (out (lg ?w2)) bytes tr),
                    \<lparr>lg = (lg ?w2)\<lparr>buf := bytes\<rparr>,
                     trace = tr @ [WriteEv (out (lg ?w2)) bytes]\<rparr>))"
    by auto
  note eq' = eq [of _ _ _ _ "buf (lg ?w2)", unfolded world_same]
  show ?thesis
    apply (rule exI [of _ fl], rule exI [of _ ln], rule exI [of _ h], rule exI [of _ "Green env"])
    using assms h
    apply (simp add: Error_def getCurrentFuncName_def c c' Let_def eq' Sprint_string)
    done
qed


text \<open>
  The witness of C4: the two Error calls of the demo program, on the package's Logger
  as the program starts.
\<close>

theorem Error_renders_witness:
  "isDiscard (lg w_std) = 0 \<and> Green env0 \<noteq> Red env0 \<and>
   Error env0 t2024 main_stack ''Color'' None w_std =
     Some \<lparr>lg = (lg w_std)\<lparr>buf :=
               Green env0 @ ''TIME: 2024/01/05 00:00:00 '' @ [nl, tab] @ ''PATH: /app/main.go'' @
               [nl, tab] @ ''LOG LINE: 13'' @ Green env0 @ [nl, tab] @ ''MESSAGE: Color'' @
               [nl, tab] @ ''ERROR: NO ERROR'' @ Reset env0 @ [nl] @ Reset env0\<rparr>,
           trace = [CallerEv 1, CallerEv 1,
             WriteEv Stderr
              (Green env0 @ ''TIME: 2024/01/05 00:00:00 '' @ [nl, tab] @ ''PATH: /app/main.go'' @
               [nl, tab] @ ''LOG LINE: 13'' @ Green env0 @ [nl, tab] @ ''MESSAGE: Color'' @
               [nl, tab] @ ''ERROR: NO ERROR'' @ Reset env0 @ [nl] @ Reset env0)]\<rparr> \<and>
   Error env0 t2024 main_stack ''Color'' (Some ''Xato'') w_std =
     Some \<lparr>lg = (lg w_std)\<lparr>buf :=
               Red env0 @ ''TIME: 2024/01/05 00:00:00 '' @ [nl, tab] @ ''PATH: /app/main.go'' @
               [nl, tab] @ ''LOG LINE: 13'' @ Red env0 @ [nl, tab] @ ''MESSAGE: Color'' @
               [nl, tab] @ ''ERROR: Xato'' @ Reset env0 @ [nl] @ Reset env0\<rparr>,
           trace = [CallerEv 1, CallerEv 1,
             WriteEv Stderr
              (Red env0 @ ''TIME: 2024/01/05 00:00:00 '' @ [nl, tab] @ ''PATH: /app/main.go'' @
               [nl, tab] @ ''LOG LINE: 13'' @ Red env0 @ [nl, tab] @ ''MESSAGE: Color'' @
               [nl, tab] @ ''ERROR: Xato'' @ Reset env0 @ [nl] @ Reset env0)]\<rparr>"
proof -
  have d: "isDiscard (lg w_std) = 0"
    by (simp add: w_std_def std0_def New_def Stderr_def Let_def)
  have p: "Green env0 \<noteq> Red env0" by (simp add: env0_def)
  have c: "Caller env0 (own_frame env0 ''Error'' # main_stack) 1 = (7, ''/app/main.go'', 13, True)"
    by (simp add: Caller_def main_stack_def env0_def word_sless_alt)
  have i: "Itoa 13 = ''13''"
    by (simp add: Itoa_def word_sless_alt dec_big dec_small digit_simps digit_Suc0)
  have f: "flag (lg w_std) AND (Lshortfile OR Llongfile) = 0"
    by (simp add: w_std_def std0_def New_def Stderr_def flag_defs Let_def)
  have o: "out (lg w_std) = Stderr" "trace w_std = []"
    by (simp_all add: w_std_def std0_def New_def Stderr_def Let_def)
  from Error_renders [OF d p, of t2024 "''Color''" main_stack]
  show ?thesis
    using d p by (simp add: header_std_2024 c i f o Let_def) (simp add: env0_def)
qed

end
